theory Spec2Isabelle
  imports Main "HOL-Library.Word"
begin

unbundle bit_operations_syntax

section \<open>komob: a minimal Modbus TCP server (komob.hpp)\<close>

text \<open>
  A shallow embedding of the protocol engine of \<^verbatim>\<open>komob.hpp\<close>: the big-endian helpers,
  the chain of register tables, the three PDU handlers, the dispatcher and the exchange
  of one request over a socket. Bytes are \<open>8 word\<close>, \<^verbatim>\<open>uint16_t\<close> is \<open>16 word\<close>,
  \<^verbatim>\<open>unsigned\<close> and \<^verbatim>\<open>uint32_t\<close> are \<open>32 word\<close>; a \<^verbatim>\<open>std::vector<uint8_t>\<close> is a list of
  bytes and \<^verbatim>\<open>size_t\<close> values are the lengths of such lists (\<open>nat\<close>). The event
  loop of \<^verbatim>\<open>serve\<close>, the socket options and the console output are not part of the
  model.
\<close>

type_synonym u8 = "8 word"
type_synonym u16 = "16 word"
type_synonym u32 = "32 word"

subsection \<open>Register tables\<close>

text \<open>
  \<^verbatim>\<open>RegisterTable\<close> is an interface with two virtual methods, \<^verbatim>\<open>read(address, value&)\<close> and
  \<^verbatim>\<open>write(address, value)\<close>, both returning \<^verbatim>\<open>bool\<close>. The tables are objects of the
  application, shared with it and possibly with each other, so their state is one world
  \<open>'w\<close> that every call receives and returns. A call either returns or throws (the
  handlers wrap the calls in \<^verbatim>\<open>try { ... } catch (...)\<close>). A \<^verbatim>\<open>read\<close> that returns \<^verbatim>\<open>true\<close>
  has assigned its out-parameter, which is the only case in which the server uses it:
  the result of \<^verbatim>\<open>read\<close> is \<open>Some value\<close> for \<^verbatim>\<open>true\<close> and \<open>None\<close> for \<^verbatim>\<open>false\<close>.
  The fields are \<open>rt_read\<close> and \<open>rt_write\<close> (\<open>write\<close> is a keyword of Isabelle).
\<close>

datatype 'a call = Threw | Returned 'a

record 'w RegisterTable =
  rt_read :: "u32 \<Rightarrow> 'w \<Rightarrow> u32 option call \<times> 'w"
  rt_write :: "u32 \<Rightarrow> u32 \<Rightarrow> 'w \<Rightarrow> bool call \<times> 'w"

text \<open>The base class: both methods return \<^verbatim>\<open>false\<close>.\<close>

definition RegisterTable_base :: "'w RegisterTable" where
  "RegisterTable_base =
     \<lparr>rt_read = (\<lambda>address w. (Returned None, w)),
      rt_write = (\<lambda>address v w. (Returned False, w))\<rparr>"

text \<open>
  \<^verbatim>\<open>MemoryRegisterTable\<close> of \<^verbatim>\<open>examples/server/modbus-server.cpp\<close>: a vector of registers,
  here the whole world; an address beyond its size is not handled.
\<close>

definition MemoryRegisterTable :: "(u32 list) RegisterTable" where
  "MemoryRegisterTable =
     \<lparr>rt_read = (\<lambda>address registers.
         if unat address \<ge> length registers then (Returned None, registers)
         else (Returned (Some (registers ! unat address)), registers)),
      rt_write = (\<lambda>address v registers.
         if unat address \<ge> length registers then (Returned False, registers)
         else (Returned True, registers[unat address := v]))\<rparr>"

subsection \<open>The server object\<close>

datatype DataWidth = W16 | W32

record 'w Server =
  data_width :: DataWidth
  keepalive_idle :: int
  keepalive_interval :: int
  keepalive_count :: int
  timeout_ms :: int
  register_tables :: "'w RegisterTable list"

text \<open>The constructor and \<^verbatim>\<open>add\<close>; a null pointer is \<open>None\<close> and is not stored.\<close>

definition Server_new :: "'w RegisterTable option \<Rightarrow> DataWidth \<Rightarrow> int \<Rightarrow> int \<Rightarrow> 'w Server" where
  "Server_new register_table width keepalive_idle_sec packet_timeout_ms =
     \<lparr>data_width = width,
      keepalive_idle = keepalive_idle_sec,
      keepalive_interval = 30,
      keepalive_count = 3,
      timeout_ms = packet_timeout_ms,
      register_tables = (case register_table of None \<Rightarrow> [] | Some t \<Rightarrow> [t])\<rparr>"

definition add :: "'w Server \<Rightarrow> 'w RegisterTable option \<Rightarrow> 'w Server" where
  "add srv register_table =
     (case register_table of
        None \<Rightarrow> srv
      | Some t \<Rightarrow> srv\<lparr>register_tables := register_tables srv @ [t]\<rparr>)"

definition EX_ILLEGAL_FUNCTION :: u8 where "EX_ILLEGAL_FUNCTION = 0x01"
definition EX_ILLEGAL_ADDRESS :: u8 where "EX_ILLEGAL_ADDRESS = 0x02"
definition EX_ILLEGAL_VALUE :: u8 where "EX_ILLEGAL_VALUE = 0x03"
definition EX_SLAVE_FAILURE :: u8 where "EX_SLAVE_FAILURE = 0x04"
definition FC_READ_HOLDING_REGISTERS :: u8 where "FC_READ_HOLDING_REGISTERS = 0x03"
definition FC_WRITE_SINGLE_REGISTER :: u8 where "FC_WRITE_SINGLE_REGISTER = 0x06"
definition FC_WRITE_MULTIPLE_REGISTERS :: u8 where "FC_WRITE_MULTIPLE_REGISTERS = 0x10"

subsection \<open>Big-endian helpers\<close>

text \<open>
  \<^verbatim>\<open>get_u16(p)\<close> and \<^verbatim>\<open>get_u32(p)\<close> read at a pointer into a vector: the model takes the
  vector and the index the pointer is taken at. The bytes are promoted to 32 bits
  before they are shifted, and the result is cast to the return type.
\<close>

definition get_u16 :: "u8 list \<Rightarrow> nat \<Rightarrow> u16" where
  "get_u16 p i =
     ucast (push_bit 8 (ucast (p ! i) :: u32) OR ucast (p ! (i + 1)))"

definition get_u32 :: "u8 list \<Rightarrow> nat \<Rightarrow> u32" where
  "get_u32 p i =
     push_bit 24 (ucast (p ! i) :: u32) OR push_bit 16 (ucast (p ! (i + 1)))
       OR push_bit 8 (ucast (p ! (i + 2))) OR ucast (p ! (i + 3))"

definition push_u16 :: "u8 list \<Rightarrow> u16 \<Rightarrow> u8 list" where
  "push_u16 out v = out @ [ucast (drop_bit 8 v AND 0xff), ucast (v AND 0xff)]"

definition push_u32 :: "u8 list \<Rightarrow> u32 \<Rightarrow> u8 list" where
  "push_u32 out v =
     out @ [ucast (drop_bit 24 v AND 0xff), ucast (drop_bit 16 v AND 0xff),
            ucast (drop_bit 8 v AND 0xff), ucast (v AND 0xff)]"

subsection \<open>Exception responses\<close>

definition exception_pdu :: "u8 \<Rightarrow> u8 \<Rightarrow> u8 list" where
  "exception_pdu function_code exception_code = [function_code OR 0x80, exception_code]"

subsection \<open>Offering an address to the chain\<close>

text \<open>
  The inner loop of the three handlers: the tables are asked in order until one returns
  \<^verbatim>\<open>true\<close>; an exception of a table leaves the loop (and the handler's \<^verbatim>\<open>try\<close> block).
\<close>

fun read_chain :: "'w RegisterTable list \<Rightarrow> u32 \<Rightarrow> 'w \<Rightarrow> u32 option call \<times> 'w" where
  "read_chain [] address w = (Returned None, w)"
| "read_chain (t # ts) address w =
     (case rt_read t address w of
        (Threw, w') \<Rightarrow> (Threw, w')
      | (Returned (Some v), w') \<Rightarrow> (Returned (Some v), w')
      | (Returned None, w') \<Rightarrow> read_chain ts address w')"

fun write_chain :: "'w RegisterTable list \<Rightarrow> u32 \<Rightarrow> u32 \<Rightarrow> 'w \<Rightarrow> bool call \<times> 'w" where
  "write_chain [] address v w = (Returned False, w)"
| "write_chain (t # ts) address v w =
     (case rt_write t address v w of
        (Threw, w') \<Rightarrow> (Threw, w')
      | (Returned True, w') \<Rightarrow> (Returned True, w')
      | (Returned False, w') \<Rightarrow> write_chain ts address v w')"

text \<open>The local variable \<^verbatim>\<open>width\<close> of the handlers, as the loops use it.\<close>

definition width_of :: "DataWidth \<Rightarrow> nat" where
  "width_of dw = (if dw = W32 then 2 else 1)"

subsection \<open>Read Holding Registers\<close>

text \<open>
  The loop \<^verbatim>\<open>for (unsigned i = 0; i*width < quantity; i++)\<close>. The counter is a \<open>nat\<close>:
  \<open>quantity\<close> comes from a 16-bit field, so \<open>i * width\<close> stays below \<open>2 ^ 16\<close>
  and never wraps; the address \<^verbatim>\<open>start + i\<close> is computed in 32 bits.
\<close>

function read_loop ::
  "'w Server \<Rightarrow> u8 \<Rightarrow> u32 \<Rightarrow> u32 \<Rightarrow> nat \<Rightarrow> u8 list \<Rightarrow> 'w \<Rightarrow> u8 list \<times> 'w" where
  "read_loop srv function_code start quantity i out w =
     (if i * width_of (data_width srv) < unat quantity then
        (case read_chain (register_tables srv) (start + of_nat i) w of
           (Threw, w') \<Rightarrow> (exception_pdu function_code EX_SLAVE_FAILURE, w')
         | (Returned None, w') \<Rightarrow> (exception_pdu function_code EX_ILLEGAL_ADDRESS, w')
         | (Returned (Some v), w') \<Rightarrow>
             read_loop srv function_code start quantity (i + 1)
               (if data_width srv = W32 then push_u32 out v else push_u16 out (ucast v)) w')
      else (out, w))"
  by pat_completeness auto
termination
  by (relation "measure (\<lambda>(srv, function_code, start, quantity, i, out, w).
        unat quantity - i * width_of (data_width srv))")
     (auto simp: width_of_def)

definition read_holding_registers :: "'w Server \<Rightarrow> u8 list \<Rightarrow> 'w \<Rightarrow> u8 list \<times> 'w" where
  "read_holding_registers srv request w =
     (let function_code = request ! 0 in
      if length request \<noteq> 5 then (exception_pdu function_code EX_ILLEGAL_VALUE, w)
      else
        let start = (ucast (get_u16 request 1) :: u32);
            quantity = (ucast (get_u16 request 3) :: u32);
            width = (if data_width srv = W32 then 2 else 1 :: u32)
        in
          if quantity mod width \<noteq> 0 then (exception_pdu function_code EX_ILLEGAL_VALUE, w)
          else if quantity > 128 then (exception_pdu function_code EX_ILLEGAL_VALUE, w)
          else read_loop srv function_code start quantity 0
                 [function_code, ucast (quantity * 2)] w)"

subsection \<open>Write Single Register\<close>

definition write_single_register :: "'w Server \<Rightarrow> u8 list \<Rightarrow> 'w \<Rightarrow> u8 list \<times> 'w" where
  "write_single_register srv request w =
     (let function_code = request ! 0 in
      if length request \<noteq> 5 then (exception_pdu function_code EX_ILLEGAL_VALUE, w)
      else
        let address = (ucast (get_u16 request 1) :: u32);
            v = (ucast (get_u16 request 3) :: u32)
        in
          if data_width srv \<noteq> W16 then (exception_pdu function_code EX_ILLEGAL_VALUE, w)
          else
            (case write_chain (register_tables srv) address v w of
               (Threw, w') \<Rightarrow> (exception_pdu function_code EX_SLAVE_FAILURE, w')
             | (Returned False, w') \<Rightarrow> (exception_pdu function_code EX_ILLEGAL_ADDRESS, w')
             | (Returned True, w') \<Rightarrow> (request, w')))"

subsection \<open>Write Multiple Registers\<close>

text \<open>
  The loop over the values of the request, with the response built after it inside the
  same \<^verbatim>\<open>try\<close> block. The counter is a \<open>nat\<close> as in \<open>read_loop\<close>.
\<close>

function write_loop ::
  "'w Server \<Rightarrow> u8 list \<Rightarrow> u8 \<Rightarrow> u32 \<Rightarrow> u32 \<Rightarrow> nat \<Rightarrow> 'w \<Rightarrow> u8 list \<times> 'w" where
  "write_loop srv request function_code start quantity i w =
     (if i * width_of (data_width srv) < unat quantity then
        (case write_chain (register_tables srv) (start + of_nat i)
                (if data_width srv = W32
                 then get_u32 request (6 + 2 * i * width_of (data_width srv))
                 else ucast (get_u16 request (6 + 2 * i * width_of (data_width srv)))) w of
           (Threw, w') \<Rightarrow> (exception_pdu function_code EX_SLAVE_FAILURE, w')
         | (Returned False, w') \<Rightarrow> (exception_pdu function_code EX_ILLEGAL_ADDRESS, w')
         | (Returned True, w') \<Rightarrow>
             write_loop srv request function_code start quantity (i + 1) w')
      else (push_u16 (push_u16 [function_code] (ucast start)) (ucast quantity), w))"
  by pat_completeness auto
termination
  by (relation "measure (\<lambda>(srv, request, function_code, start, quantity, i, w).
        unat quantity - i * width_of (data_width srv))")
     (auto simp: width_of_def)

definition write_multiple_registers :: "'w Server \<Rightarrow> u8 list \<Rightarrow> 'w \<Rightarrow> u8 list \<times> 'w" where
  "write_multiple_registers srv request w =
     (let function_code = request ! 0 in
      if length request < 6 then (exception_pdu function_code EX_ILLEGAL_VALUE, w)
      else
        let start = (ucast (get_u16 request 1) :: u32);
            quantity = (ucast (get_u16 request 3) :: u32);
            byte_count = (ucast (request ! 5) :: u32);
            width = (if data_width srv = W32 then 2 else 1 :: u32)
        in
          if byte_count \<noteq> quantity * 2 then (exception_pdu function_code EX_ILLEGAL_VALUE, w)
          else if quantity mod width \<noteq> 0 then (exception_pdu function_code EX_ILLEGAL_VALUE, w)
          else if length request \<noteq> unat (6 + byte_count)
            then (exception_pdu function_code EX_ILLEGAL_VALUE, w)
          else write_loop srv request function_code start quantity 0 w)"

subsection \<open>The dispatcher\<close>

definition dispatch_pdu :: "'w Server \<Rightarrow> u8 list \<Rightarrow> 'w \<Rightarrow> u8 list \<times> 'w" where
  "dispatch_pdu srv request w =
     (if length request < 1 then (exception_pdu 0 EX_ILLEGAL_FUNCTION, w)
      else
        let function_code = (ucast (request ! 0) :: u32) in
          if function_code = ucast FC_READ_HOLDING_REGISTERS
            then read_holding_registers srv request w
          else if function_code = ucast FC_WRITE_SINGLE_REGISTER
            then write_single_register srv request w
          else if function_code = ucast FC_WRITE_MULTIPLE_REGISTERS
            then write_multiple_registers srv request w
          else (exception_pdu (ucast function_code) EX_ILLEGAL_FUNCTION, w))"

subsection \<open>One request over a socket\<close>

text \<open>
  A connected socket is modelled by what its peer and the kernel do next: \<open>inbound\<close> is
  the script of the coming \<^verbatim>\<open>recv\<close> results (bytes that have arrived, with the empty
  chunk for an orderly shutdown; an interrupted call; an error), \<open>sends\<close> the script of
  the coming \<^verbatim>\<open>send\<close> results (the number of bytes the kernel takes, \<open>0\<close> for a return
  value of \<open>0\<close>; an interrupted call; an error), and \<open>outbound\<close> the bytes written so
  far. The sockets have receive and send timeouts, so a call on an exhausted script
  fails with a timeout.
\<close>

datatype recv_event = RecvBytes "u8 list" | RecvEINTR | RecvError

datatype send_event = SendAccepts nat | SendEINTR | SendError

record socket =
  inbound :: "recv_event list"
  sends :: "send_event list"
  outbound :: "u8 list"

definition recv :: "socket \<Rightarrow> nat \<Rightarrow> recv_event \<times> socket" where
  "recv fd n =
     (case inbound fd of
        [] \<Rightarrow> (RecvError, fd)
      | RecvBytes bs # es \<Rightarrow>
          if length bs \<le> n then (RecvBytes bs, fd\<lparr>inbound := es\<rparr>)
          else (RecvBytes (take n bs), fd\<lparr>inbound := RecvBytes (drop n bs) # es\<rparr>)
      | e # es \<Rightarrow> (e, fd\<lparr>inbound := es\<rparr>))"

definition send :: "socket \<Rightarrow> u8 list \<Rightarrow> send_event \<times> socket" where
  "send fd bs =
     (case sends fd of
        [] \<Rightarrow> (SendError, fd)
      | SendAccepts k # es \<Rightarrow>
          (SendAccepts (min k (length bs)),
           fd\<lparr>sends := es, outbound := outbound fd @ take (min k (length bs)) bs\<rparr>)
      | e # es \<Rightarrow> (e, fd\<lparr>sends := es\<rparr>))"

fun event_size :: "recv_event \<Rightarrow> nat" where
  "event_size (RecvBytes bs) = Suc (length bs)"
| "event_size RecvEINTR = 1"
| "event_size RecvError = 1"

text \<open>
  \<^verbatim>\<open>read_exact(fd, buf, n)\<close>: \<open>buf\<close> holds the bytes received so far (\<^verbatim>\<open>off\<close> is its
  length); the result is the return value, the buffer and the socket.
\<close>

function read_exact_from :: "socket \<Rightarrow> u8 list \<Rightarrow> nat \<Rightarrow> bool \<times> u8 list \<times> socket" where
  "read_exact_from fd buf n =
     (if length buf < n then
        (case recv fd (n - length buf) of
           (RecvBytes bs, fd') \<Rightarrow>
             if bs = [] then (False, buf, fd') else read_exact_from fd' (buf @ bs) n
         | (RecvEINTR, fd') \<Rightarrow> read_exact_from fd' buf n
         | (RecvError, fd') \<Rightarrow> (False, buf, fd'))
      else (True, buf, fd))"
  by pat_completeness auto
termination
  by (relation "measure (\<lambda>(fd, buf, n). sum_list (map event_size (inbound fd)))")
     (auto simp: recv_def split: list.splits recv_event.splits if_splits)

definition read_exact :: "socket \<Rightarrow> nat \<Rightarrow> bool \<times> u8 list \<times> socket" where
  "read_exact fd n = read_exact_from fd [] n"

text \<open>\<^verbatim>\<open>write_exact(fd, buf, n)\<close>: \<open>bs\<close> is the part of the buffer from \<^verbatim>\<open>off\<close> on.\<close>

function write_exact :: "socket \<Rightarrow> u8 list \<Rightarrow> bool \<times> socket" where
  "write_exact fd bs =
     (if 0 < length bs then
        (case send fd bs of
           (SendAccepts k, fd') \<Rightarrow>
             if k = 0 then (False, fd') else write_exact fd' (drop k bs)
         | (SendEINTR, fd') \<Rightarrow> write_exact fd' bs
         | (SendError, fd') \<Rightarrow> (False, fd'))
      else (True, fd))"
  by pat_completeness auto
termination
  by (relation "measure (\<lambda>(fd, bs). length (sends fd))")
     (auto simp: send_def split: list.splits send_event.splits if_splits)

text \<open>The response frame: the MBAP header built from the request's, then the PDU.\<close>

definition response_frame :: "u32 \<Rightarrow> u32 \<Rightarrow> u8 list \<Rightarrow> u8 list" where
  "response_frame transaction_id unit_id resp_pdu =
     push_u16 (push_u16 (push_u16 [] (ucast transaction_id)) 0x0000)
       (of_nat (1 + length resp_pdu)) @ [ucast unit_id] @ resp_pdu"

text \<open>
  \<^verbatim>\<open>handle_single_request\<close>. The handlers catch every exception of the tables themselves,
  so \<open>dispatch_pdu\<close> returns a response here and the fallback of the outer \<^verbatim>\<open>catch\<close>
  has no case.
\<close>

definition handle_single_request ::
  "'w Server \<Rightarrow> socket \<Rightarrow> 'w \<Rightarrow> bool \<times> socket \<times> 'w" where
  "handle_single_request srv fd w =
     (case read_exact fd 7 of
        (False, header, fd1) \<Rightarrow> (False, fd1, w)
      | (True, header, fd1) \<Rightarrow>
          let transaction_id = (ucast (get_u16 header 0) :: u32);
              protocol_id = (ucast (get_u16 header 2) :: u32);
              len = (ucast (get_u16 header 4) :: u32);
              unit_id = (ucast (header ! 6) :: u32)
          in
            if protocol_id \<noteq> 0 then (False, fd1, w)
            else if len < 2 then (False, fd1, w)
            else
              let pdu_length = (if len > 1 then unat (len - 1) else 0) in
                if pdu_length > 256 then (False, fd1, w)
                else
                  (case read_exact fd1 pdu_length of
                     (False, pdu, fd2) \<Rightarrow> (False, fd2, w)
                   | (True, pdu, fd2) \<Rightarrow>
                       (case dispatch_pdu srv pdu w of
                          (resp_pdu, w') \<Rightarrow>
                            (case write_exact fd2
                                    (response_frame transaction_id unit_id resp_pdu) of
                               (False, fd3) \<Rightarrow> (False, fd3, w')
                             | (True, fd3) \<Rightarrow> (True, fd3, w')))))"

section \<open>Conversions and the big-endian helpers\<close>

text \<open>The loops are unfolded one step at a time, where a proof asks for it.\<close>

declare read_loop.simps [simp del]
declare write_loop.simps [simp del]
declare read_exact_from.simps [simp del]
declare write_exact.simps [simp del]

lemma unat_ucast_16_32: "unat (ucast (x :: u16) :: u32) = unat x"
proof -
  have "unat x < 2 ^ 16" using unsigned_less [of x] by simp
  then have "unat x < 2 ^ 32" by simp
  then show ?thesis by (simp add: unsigned_ucast_eq take_bit_nat_eq_self)
qed

lemma unat_ucast_8_32: "unat (ucast (x :: u8) :: u32) = unat x"
proof -
  have "unat x < 2 ^ 8" using unsigned_less [of x] by simp
  then have "unat x < 2 ^ 32" by simp
  then show ?thesis by (simp add: unsigned_ucast_eq take_bit_nat_eq_self)
qed

lemma ucast_8_32_8: "ucast (ucast (x :: u8) :: u32) = x"
  by (simp add: ucast_up_ucast_id is_up)

lemma ucast_16_32_16: "ucast (ucast (x :: u16) :: u32) = x"
  by (simp add: ucast_up_ucast_id is_up)

lemma ucast_8_32_eq_iff: "(ucast (x :: u8) :: u32) = ucast (y :: u8) \<longleftrightarrow> x = y"
  by (metis ucast_8_32_8)

lemma and_ff16: "(v :: u16) AND 0xff = take_bit 8 v"
  by (simp add: take_bit_eq_mask mask_eq_exp_minus_1)

text \<open>Writing a 16-bit value read from a buffer gives back the two bytes it was read from.\<close>

lemma push_get_u16: "push_u16 out (get_u16 p i) = out @ [p ! i, p ! (i + 1)]"
  apply (simp add: push_u16_def get_u16_def and_ff16)
  apply (rule conjI; rule bit_word_eqI)
   apply (auto simp: bit_simps dest: bit_imp_le_length)
  done

lemma push_u16_zero: "push_u16 out 0 = out @ [0, 0]"
  by (simp add: push_u16_def)

text \<open>The bytes of a register value truncated to 16 bits, as the 16-bit mode writes it.\<close>

lemma push_u16_low: "push_u16 out (ucast (v :: u32)) = out @ [ucast (drop_bit 8 v), ucast v]"
  apply (simp add: push_u16_def and_ff16)
  apply (rule conjI; rule bit_word_eqI)
   apply (auto simp: bit_simps)
  done

text \<open>
  The checks of the handlers are made in 32 bits on fields of 8 and 16 bits; they never
  wrap, and say on the numbers what they say on the words.
\<close>

lemma unat_quantity_times_2: "unat ((ucast (q :: u16) :: u32) * 2) = 2 * unat q"
proof -
  have "unat q < 2 ^ 16" using unsigned_less [of q] by simp
  then have "unat q * 2 < 2 ^ 32" by simp
  then show ?thesis by (simp add: unat_word_ariths unat_ucast_16_32)
qed

lemma byte_count_eq_iff:
  "(ucast (b :: u8) :: u32) = ucast (q :: u16) * 2 \<longleftrightarrow> unat b = 2 * unat q"
  by (simp add: word_unat_eq_iff unat_quantity_times_2 unat_ucast_8_32)

lemma quantity_mod_width:
  "(ucast (q :: u16) :: u32) mod (if dw = W32 then 2 else 1) = 0
   \<longleftrightarrow> unat q mod width_of dw = 0"
  by (simp add: word_unat_eq_iff unat_mod unat_ucast_16_32 width_of_def)

lemma unat_6_plus_byte_count: "unat (6 + (ucast (b :: u8) :: u32)) = 6 + unat b"
proof -
  have "unat b < 2 ^ 8" using unsigned_less [of b] by simp
  then have "6 + unat b < 2 ^ 32" by simp
  then show ?thesis by (simp add: unat_word_ariths unat_ucast_8_32)
qed

text \<open>
  The byte count of a read response is the cast of \<open>quantity * 2\<close> to one byte: it is
  \<open>quantity * 2\<close> up to 127 registers and wraps to 0 at 128.
\<close>

lemma byte_count_byte: "(ucast ((ucast (q :: u16) :: u32) * 2) :: u8) = of_nat (2 * unat q)"
proof -
  have "(ucast ((ucast q :: u32) * 2) :: u8) = of_nat (unat ((ucast q :: u32) * 2))"
    by simp
  then show ?thesis by (simp only: unat_quantity_times_2)
qed

lemma byte_count_fits: "n \<le> 127 \<Longrightarrow> unat (of_nat (2 * n) :: u8) = 2 * n"
  by (simp add: unat_of_nat take_bit_nat_eq_self del: of_nat_mult)

lemma byte_count_wraps: "(of_nat (2 * 128) :: u8) = 0"
  by simp

section \<open>The dispatcher's cases\<close>

lemma dispatch_read:
  "request \<noteq> [] \<Longrightarrow> request ! 0 = 0x03 \<Longrightarrow>
   dispatch_pdu srv request w = read_holding_registers srv request w"
  by (simp add: dispatch_pdu_def FC_READ_HOLDING_REGISTERS_def)

lemma dispatch_write_single:
  "request \<noteq> [] \<Longrightarrow> request ! 0 = 0x06 \<Longrightarrow>
   dispatch_pdu srv request w = write_single_register srv request w"
  by (simp add: dispatch_pdu_def FC_READ_HOLDING_REGISTERS_def FC_WRITE_SINGLE_REGISTER_def)

lemma dispatch_write_multiple:
  "request \<noteq> [] \<Longrightarrow> request ! 0 = 0x10 \<Longrightarrow>
   dispatch_pdu srv request w = write_multiple_registers srv request w"
  by (simp add: dispatch_pdu_def FC_READ_HOLDING_REGISTERS_def FC_WRITE_SINGLE_REGISTER_def
      FC_WRITE_MULTIPLE_REGISTERS_def)

lemma dispatch_unknown:
  "request \<noteq> [] \<Longrightarrow> request ! 0 \<noteq> 0x03 \<Longrightarrow> request ! 0 \<noteq> 0x06 \<Longrightarrow> request ! 0 \<noteq> 0x10 \<Longrightarrow>
   dispatch_pdu srv request w = ([request ! 0 OR 0x80, 0x01], w)"
  using ucast_8_32_eq_iff [of "request ! 0" 3] ucast_8_32_eq_iff [of "request ! 0" 6]
    ucast_8_32_eq_iff [of "request ! 0" 16]
  by (simp add: dispatch_pdu_def FC_READ_HOLDING_REGISTERS_def FC_WRITE_SINGLE_REGISTER_def
      FC_WRITE_MULTIPLE_REGISTERS_def exception_pdu_def EX_ILLEGAL_FUNCTION_def ucast_8_32_8)

section \<open>The checks of the handlers\<close>

lemma read_holding_registers_shape:
  "read_holding_registers srv request w =
     (if length request \<noteq> 5 \<or> unat (get_u16 request 3) mod width_of (data_width srv) \<noteq> 0
         \<or> unat (get_u16 request 3) > 128
      then ([request ! 0 OR 0x80, 0x03], w)
      else read_loop srv (request ! 0) (ucast (get_u16 request 1))
             (ucast (get_u16 request 3)) 0
             [request ! 0, of_nat (2 * unat (get_u16 request 3))] w)"
  using quantity_mod_width [of "get_u16 request 3" "data_width srv"]
  by (simp add: read_holding_registers_def Let_def word_less_nat_alt unat_ucast_16_32
      exception_pdu_def EX_ILLEGAL_VALUE_def byte_count_byte del: of_nat_mult)

lemma write_multiple_registers_shape:
  "write_multiple_registers srv request w =
     (if length request < 6 \<or> unat (request ! 5) \<noteq> 2 * unat (get_u16 request 3)
         \<or> unat (get_u16 request 3) mod width_of (data_width srv) \<noteq> 0
         \<or> length request \<noteq> 6 + unat (request ! 5)
      then ([request ! 0 OR 0x80, 0x03], w)
      else write_loop srv request (request ! 0) (ucast (get_u16 request 1))
             (ucast (get_u16 request 3)) 0 w)"
  using quantity_mod_width [of "get_u16 request 3" "data_width srv"]
  by (simp add: write_multiple_registers_def Let_def byte_count_eq_iff
      unat_6_plus_byte_count exception_pdu_def EX_ILLEGAL_VALUE_def)

section \<open>Read Holding Registers\<close>

subsection \<open>The loop\<close>

text \<open>
  In the statements about the loops, \<open>ws j\<close> is the world in which the \<open>j\<close>-th
  address is offered to the chain and \<open>vs j\<close> is the value a table returns for it:
  the tables may change the world at every call, so each offer is made in the world
  the previous one has left.
\<close>

lemma read_loop_W16:
  assumes w16: "data_width srv = W16"
    and hits: "\<And>j. j < unat quantity \<Longrightarrow>
      read_chain (register_tables srv) (start + of_nat j) (ws j)
        = (Returned (Some (vs j)), ws (Suc j))"
    and i: "i \<le> unat quantity"
  shows "read_loop srv fc start quantity i out (ws i) =
    (out @ concat (map (\<lambda>j. [ucast (drop_bit 8 (vs j)), ucast (vs j)]) [i..<unat quantity]),
     ws (unat quantity))"
  using i
proof (induction "unat quantity - i" arbitrary: i out)
  case 0
  then have "i = unat quantity" by simp
  then show ?case by (subst read_loop.simps) (simp add: w16 width_of_def)
next
  case (Suc d)
  then have lt: "i < unat quantity" by simp
  have step: "read_loop srv fc start quantity i out (ws i) =
      read_loop srv fc start quantity (Suc i) (push_u16 out (ucast (vs i))) (ws (Suc i))"
    using lt by (subst read_loop.simps) (simp add: w16 width_of_def hits)
  have "d = unat quantity - Suc i" using Suc.hyps(2) by simp
  moreover have "Suc i \<le> unat quantity" using lt by simp
  ultimately have ih:
    "read_loop srv fc start quantity (Suc i) (push_u16 out (ucast (vs i))) (ws (Suc i)) =
      (push_u16 out (ucast (vs i))
         @ concat (map (\<lambda>j. [ucast (drop_bit 8 (vs j)), ucast (vs j)]) [Suc i..<unat quantity]),
       ws (unat quantity))"
    by (rule Suc.hyps(1))
  show ?case
    unfolding step ih using lt by (simp add: upt_conv_Cons push_u16_low)
qed

lemma read_loop_miss:
  assumes hits: "\<And>j. j < k \<Longrightarrow>
      read_chain (register_tables srv) (start + of_nat j) (ws j)
        = (Returned (Some (vs j)), ws (Suc j))"
    and miss: "read_chain (register_tables srv) (start + of_nat k) (ws k)
        = (Returned None, w_miss)"
    and k: "k * width_of (data_width srv) < unat quantity"
    and i: "i \<le> k"
  shows "read_loop srv fc start quantity i out (ws i)
         = (exception_pdu fc EX_ILLEGAL_ADDRESS, w_miss)"
  using i
proof (induction "k - i" arbitrary: i out)
  case 0
  then have "i = k" by simp
  then show ?case using k miss by (subst read_loop.simps) simp
next
  case (Suc d)
  then have lt: "i < k" by simp
  have run: "i * width_of (data_width srv) < unat quantity"
    using mult_le_mono1 [of i k "width_of (data_width srv)"] lt k by linarith
  have step: "read_loop srv fc start quantity i out (ws i) =
      read_loop srv fc start quantity (Suc i)
        (if data_width srv = W32 then push_u32 out (vs i) else push_u16 out (ucast (vs i)))
        (ws (Suc i))"
    using run hits [OF lt] by (subst read_loop.simps) simp
  have "d = k - Suc i" using Suc.hyps(2) by simp
  moreover have "Suc i \<le> k" using lt by simp
  ultimately show ?case unfolding step by (rule Suc.hyps(1))
qed

text \<open>Whatever the tables do, the loop ends with an exception PDU or with the output extended.\<close>

lemma read_loop_response:
  "(\<exists>e. fst (read_loop srv fc start quantity i out w) = [fc OR 0x80, e])
   \<or> (\<exists>ys. fst (read_loop srv fc start quantity i out w) = out @ ys)"
proof (induction srv fc start quantity i out w rule: read_loop.induct)
  case (1 srv fc start quantity i out w)
  show ?case
  proof (cases "i * width_of (data_width srv) < unat quantity")
    case False
    then show ?thesis by (subst read_loop.simps) simp
  next
    case True
    obtain r w' where rc: "read_chain (register_tables srv) (start + of_nat i) w = (r, w')"
      by (cases "read_chain (register_tables srv) (start + of_nat i) w")
    show ?thesis
    proof (cases r)
      case Threw
      with True rc show ?thesis by (subst read_loop.simps) (simp add: exception_pdu_def)
    next
      case (Returned x)
      show ?thesis
      proof (cases x)
        case None
        with True rc Returned show ?thesis
          by (subst read_loop.simps) (simp add: exception_pdu_def)
      next
        case (Some v)
        let ?out = "if data_width srv = W32 then push_u32 out v else push_u16 out (ucast v)"
        have step: "read_loop srv fc start quantity i out w
            = read_loop srv fc start quantity (i + 1) ?out w'"
          using True rc Returned Some by (subst read_loop.simps) simp
        have ext: "\<exists>bs. ?out = out @ bs"
          by (simp add: push_u32_def push_u16_def)
        from "1.IH" [OF True rc [symmetric] Returned Some]
        show ?thesis unfolding step using ext by auto
      qed
    qed
  qed
qed

subsection \<open>Reading registers the chain owns\<close>

text \<open>
  A 16-bit-mode read of up to 128 registers, each owned by the chain when it is
  offered: the response is the function code, the byte \<open>quantity * 2\<close> cast to 8 bits,
  and the values, truncated to 16 bits, big-endian and in address order.
\<close>

lemma read_holding_registers_W16_owned:
  assumes w16: "data_width srv = W16"
    and len: "length request = 5" and fc: "request ! 0 = 0x03"
    and q: "unat (get_u16 request 3) \<le> 128"
    and hits: "\<forall>j < unat (get_u16 request 3).
      read_chain (register_tables srv) (ucast (get_u16 request 1) + of_nat j) (ws j)
        = (Returned (Some (vs j)), ws (Suc j))"
  shows "dispatch_pdu srv request (ws 0) =
    (0x03 # of_nat (2 * unat (get_u16 request 3))
        # concat (map (\<lambda>j. [ucast (drop_bit 8 (vs j)), ucast (vs j)])
            [0..<unat (get_u16 request 3)]),
     ws (unat (get_u16 request 3)))"
proof -
  from len have "request \<noteq> []" by auto
  then have "dispatch_pdu srv request (ws 0) = read_holding_registers srv request (ws 0)"
    using fc by (rule dispatch_read)
  also have "\<dots> = read_loop srv (request ! 0) (ucast (get_u16 request 1))
             (ucast (get_u16 request 3)) 0
             [request ! 0, of_nat (2 * unat (get_u16 request 3))] (ws 0)"
    using len q by (simp add: read_holding_registers_shape w16 width_of_def del: of_nat_mult)
  also have "\<dots> = ([request ! 0, of_nat (2 * unat (get_u16 request 3))]
        @ concat (map (\<lambda>j. [ucast (drop_bit 8 (vs j)), ucast (vs j)])
            [0..<unat (ucast (get_u16 request 3) :: u32)]),
     ws (unat (ucast (get_u16 request 3) :: u32)))"
    by (rule read_loop_W16 [OF w16]) (use hits in \<open>simp_all add: unat_ucast_16_32\<close>)
  finally show ?thesis by (simp add: fc unat_ucast_16_32 del: of_nat_mult)
qed

text \<open>
  For a quantity from 1 to 127 the byte count is \<open>quantity * 2\<close>, as the specification
  says of the quantities up to 128.
\<close>

lemma read_holding_registers_W16_upto_127:
  assumes w16: "data_width srv = W16"
    and len: "length request = 5" and fc: "request ! 0 = 0x03"
    and q: "1 \<le> unat (get_u16 request 3)" "unat (get_u16 request 3) \<le> 127"
    and hits: "\<forall>j < unat (get_u16 request 3).
      read_chain (register_tables srv) (ucast (get_u16 request 1) + of_nat j) (ws j)
        = (Returned (Some (vs j)), ws (Suc j))"
  shows "\<exists>byte_count. unat byte_count = unat (get_u16 request 3) * 2 \<and>
    dispatch_pdu srv request (ws 0) =
      (0x03 # byte_count
          # concat (map (\<lambda>j. [ucast (drop_bit 8 (vs j)), ucast (vs j)])
              [0..<unat (get_u16 request 3)]),
       ws (unat (get_u16 request 3)))"
proof -
  from q(2) have "unat (get_u16 request 3) \<le> 128" by simp
  from read_holding_registers_W16_owned [OF w16 len fc this hits] byte_count_fits [OF q(2)]
  show ?thesis by (intro exI [of _ "of_nat (2 * unat (get_u16 request 3))"]) simp
qed

lemma Memory_read_chain:
  "unat a < length registers \<Longrightarrow>
   read_chain [MemoryRegisterTable] a registers
     = (Returned (Some (registers ! unat a)), registers)"
  by (simp add: MemoryRegisterTable_def)

text \<open>
  The example of the specification: \<open>03 00 00 00 02\<close> in 16-bit mode, on a table with
  \<open>0x0010\<close> at address 0 and \<open>0x0020\<close> at address 1, gives \<open>03 04 00 10 00 20\<close>.
\<close>

lemma read_two_registers_example:
  "dispatch_pdu (Server_new (Some MemoryRegisterTable) W16 3600 1000)
     [0x03, 0x00, 0x00, 0x00, 0x02] [0x0010, 0x0020]
   = ([0x03, 0x04, 0x00, 0x10, 0x00, 0x20], [0x0010, 0x0020])"
proof -
  let ?srv = "Server_new (Some MemoryRegisterTable) W16 3600 1000 :: (u32 list) Server"
  let ?req = "[0x03, 0x00, 0x00, 0x00, 0x02] :: u8 list"
  let ?regs = "[0x0010, 0x0020] :: u32 list"
  have q: "unat (get_u16 ?req 3) = 2" by (simp add: get_u16_def)
  have s: "get_u16 ?req (Suc 0) = 0" by (simp add: get_u16_def)
  have hits: "\<forall>j < unat (get_u16 ?req 3).
      read_chain (register_tables ?srv) (ucast (get_u16 ?req 1) + of_nat j) ?regs
        = (Returned (Some (?regs ! j)), ?regs)"
    unfolding q by (simp add: s Server_new_def MemoryRegisterTable_def less_2_cases_iff)
  have "dispatch_pdu ?srv ?req ?regs =
    (0x03 # of_nat (2 * unat (get_u16 ?req 3))
        # concat (map (\<lambda>j. [ucast (drop_bit 8 (?regs ! j)), ucast (?regs ! j)])
            [0..<unat (get_u16 ?req 3)]),
     ?regs)"
  proof (rule read_holding_registers_W16_owned
      [where ws = "\<lambda>_. ?regs" and vs = "\<lambda>j. ?regs ! j" and srv = ?srv and request = ?req])
    show "data_width ?srv = W16" by (simp add: Server_new_def)
    show "length ?req = 5" by simp
    show "?req ! 0 = 0x03" by simp
    show "unat (get_u16 ?req 3) \<le> 128" by (simp only: q)
    show "\<forall>j < unat (get_u16 ?req 3).
      read_chain (register_tables ?srv) (ucast (get_u16 ?req 1) + of_nat j) ?regs
        = (Returned (Some (?regs ! j)), ?regs)" by (rule hits)
  qed
  then show ?thesis
    by (simp only: q) (simp add: upt_rec)
qed

text \<open>
  Claim C1: for every 16-bit-mode Read Holding Registers request of exactly 5 bytes
  with a quantity from 1 to 128 whose addresses are all owned by the chain, the response
  is the function code \<open>0x03\<close>, a byte count equal to \<open>quantity * 2\<close>, and the
  values big-endian in address order. The guard of the handler rejects a quantity above
  128 so that, as its comment says, the byte count fits its 8 bits; it lets 128 through,
  whose byte count 256 does not fit. The statement below runs the server on the request
  \<open>03 00 00 00 80\<close> with one table of 256 registers that are all 0: the response has
  the byte count \<open>0x00\<close> in front of its 256 bytes of values.
\<close>

theorem read_holding_registers_quantity_128_byte_count:
  "dispatch_pdu (Server_new (Some MemoryRegisterTable) W16 3600 1000)
     [0x03, 0x00, 0x00, 0x00, 0x80] (replicate 256 0)
   = (0x03 # 0x00 # concat (replicate 128 [0x00, 0x00]), replicate 256 0)"
proof -
  let ?srv = "Server_new (Some MemoryRegisterTable) W16 3600 1000 :: (u32 list) Server"
  let ?req = "[0x03, 0x00, 0x00, 0x00, 0x80] :: u8 list"
  have q: "unat (get_u16 ?req 3) = 128" by (simp add: get_u16_def)
  have s: "get_u16 ?req (Suc 0) = 0" by (simp add: get_u16_def)
  have hits: "\<forall>j < unat (get_u16 ?req 3).
      read_chain (register_tables ?srv) (ucast (get_u16 ?req 1) + of_nat j) (replicate 256 0)
        = (Returned (Some 0), replicate 256 0)"
  proof (intro allI impI)
    fix j :: nat assume "j < unat (get_u16 ?req 3)"
    then have j: "j < 128" by (simp only: q)
    then have "unat (of_nat j :: u32) = j" by (simp add: unat_of_nat take_bit_nat_eq_self)
    with j have "read_chain [MemoryRegisterTable] (of_nat j) (replicate 256 0)
        = (Returned (Some 0), replicate 256 0)"
      using Memory_read_chain [of "of_nat j" "replicate 256 0"] by simp
    with j show "read_chain (register_tables ?srv) (ucast (get_u16 ?req 1) + of_nat j)
        (replicate 256 0) = (Returned (Some 0), replicate 256 0)"
      by (simp add: s Server_new_def)
  qed
  have "dispatch_pdu ?srv ?req (replicate 256 0) =
    (0x03 # of_nat (2 * unat (get_u16 ?req 3))
        # concat (map (\<lambda>j. [ucast (drop_bit 8 (0 :: u32)), ucast (0 :: u32)])
            [0..<unat (get_u16 ?req 3)]),
     replicate 256 0)"
  proof (rule read_holding_registers_W16_owned
      [where ws = "\<lambda>_. replicate 256 0" and vs = "\<lambda>_. 0" and srv = ?srv and request = ?req])
    show "data_width ?srv = W16" by (simp add: Server_new_def)
    show "length ?req = 5" by simp
    show "?req ! 0 = 0x03" by simp
    show "unat (get_u16 ?req 3) \<le> 128" by (simp only: q)
    show "\<forall>j < unat (get_u16 ?req 3).
      read_chain (register_tables ?srv) (ucast (get_u16 ?req 1) + of_nat j) (replicate 256 0)
        = (Returned (Some 0), replicate 256 0)" by (rule hits)
  qed
  then show ?thesis
    by (simp only: q) (simp add: map_replicate_const)
qed

subsection \<open>Reading an address no table owns\<close>

text \<open>
  Claim C8: for every Read Holding Registers request of valid shape (5 bytes, a quantity
  of at most 128 that is a multiple of the width) whose range has an address that no
  table of the chain owns, the response is the exception PDU with code 2 (illegal
  address) and nothing else: none of the values read before the miss is in it. Here
  \<open>k\<close> is the first such address of the range: the addresses before it are owned
  (\<open>vs j\<close> is read at the \<open>j\<close>-th), and every table returns \<^verbatim>\<open>false\<close> at the \<open>k\<close>-th.
  The range is the one the loop visits, \<open>start + i\<close> for \<open>i * width < quantity\<close>.
\<close>

theorem read_holding_registers_unowned_address:
  assumes len: "length request = 5" and fc: "request ! 0 = 0x03"
    and w: "unat (get_u16 request 3) mod width_of (data_width srv) = 0"
    and q: "unat (get_u16 request 3) \<le> 128"
    and k: "k * width_of (data_width srv) < unat (get_u16 request 3)"
    and hits: "\<forall>j<k.
      read_chain (register_tables srv) (ucast (get_u16 request 1) + of_nat j) (ws j)
        = (Returned (Some (vs j)), ws (Suc j))"
    and miss: "read_chain (register_tables srv) (ucast (get_u16 request 1) + of_nat k) (ws k)
        = (Returned None, w_miss)"
  shows "dispatch_pdu srv request (ws 0) = ([0x83, 0x02], w_miss)"
proof -
  from len have "request \<noteq> []" by auto
  then have "dispatch_pdu srv request (ws 0) = read_holding_registers srv request (ws 0)"
    using fc by (rule dispatch_read)
  also have "\<dots> = read_loop srv (request ! 0) (ucast (get_u16 request 1))
             (ucast (get_u16 request 3)) 0
             [request ! 0, of_nat (2 * unat (get_u16 request 3))] (ws 0)"
    using len q w by (simp add: read_holding_registers_shape del: of_nat_mult)
  also have "\<dots> = (exception_pdu (request ! 0) EX_ILLEGAL_ADDRESS, w_miss)"
    by (rule read_loop_miss [where k = k and vs = vs])
       (use hits miss k in \<open>simp_all add: unat_ucast_16_32\<close>)
  finally show ?thesis by (simp add: fc exception_pdu_def EX_ILLEGAL_ADDRESS_def)
qed

theorem read_holding_registers_unowned_address_witness:
  "dispatch_pdu (Server_new (Some MemoryRegisterTable) W16 3600 1000)
     [0x03, 0x00, 0x00, 0x00, 0x02] [0x10] = ([0x83, 0x02], [0x10])"
  using read_holding_registers_unowned_address [of "[0x03, 0x00, 0x00, 0x00, 0x02]"
      "Server_new (Some MemoryRegisterTable) W16 3600 1000" 1 "\<lambda>_. [0x10]" "\<lambda>_. 0x10" "[0x10]"]
  by (simp add: Server_new_def MemoryRegisterTable_def get_u16_def width_of_def)

section \<open>Write Single Register\<close>

text \<open>
  Claim C5: for every Write Single Register request of exactly 5 bytes, when the server
  is in 16-bit mode and some table of the chain accepts the write at the given address,
  the response PDU is the request PDU byte for byte. The world after the request is the
  one the accepted write leaves.
\<close>

theorem write_single_register_echo:
  assumes "length request = 5" and "request ! 0 = 0x06" and "data_width srv = W16"
    and "write_chain (register_tables srv) (ucast (get_u16 request 1))
           (ucast (get_u16 request 3)) w = (Returned True, w')"
  shows "dispatch_pdu srv request w = (request, w')"
proof -
  from assms(1) have "request \<noteq> []" by auto
  then have "dispatch_pdu srv request w = write_single_register srv request w"
    using assms(2) by (rule dispatch_write_single)
  also have "\<dots> = (request, w')"
    using assms by (simp add: write_single_register_def)
  finally show ?thesis .
qed

theorem write_single_register_echo_witness:
  "dispatch_pdu (Server_new (Some MemoryRegisterTable) W16 3600 1000)
     [0x06, 0x00, 0x01, 0x12, 0x34] [0, 0]
   = ([0x06, 0x00, 0x01, 0x12, 0x34], [0, 0x1234])"
  using write_single_register_echo
    [of "[0x06, 0x00, 0x01, 0x12, 0x34]" "Server_new (Some MemoryRegisterTable) W16 3600 1000"
        "[0, 0]" "[0, 0x1234]"]
  by (simp add: Server_new_def MemoryRegisterTable_def get_u16_def)

text \<open>
  Claim C6: for every Write Single Register request of exactly 5 bytes, when the server
  is configured for 32-bit width, the response is the exception PDU with code 3
  (illegal value), whatever the tables are, and the world is the one before the request:
  no table is called (the statement holds for tables whose \<open>rt_write\<close> changes the
  world at every call).
\<close>

theorem write_single_register_W32_illegal_value:
  assumes "length request = 5" and "request ! 0 = 0x06" and "data_width srv = W32"
  shows "dispatch_pdu srv request w = ([0x86, 0x03], w)"
proof -
  from assms(1) have "request \<noteq> []" by auto
  then have "dispatch_pdu srv request w = write_single_register srv request w"
    using assms(2) by (rule dispatch_write_single)
  also have "\<dots> = ([0x86, 0x03], w)"
    using assms by (simp add: write_single_register_def exception_pdu_def EX_ILLEGAL_VALUE_def)
  finally show ?thesis .
qed

theorem write_single_register_W32_illegal_value_witness:
  "dispatch_pdu (Server_new (Some MemoryRegisterTable) W32 3600 1000)
     [0x06, 0x00, 0x01, 0x12, 0x34] [0, 0]
   = ([0x86, 0x03], [0, 0])"
  using write_single_register_W32_illegal_value
    [of "[0x06, 0x00, 0x01, 0x12, 0x34]" "Server_new (Some MemoryRegisterTable) W32 3600 1000"
        "[0, 0]"]
  by (simp add: Server_new_def)

lemma write_single_register_response:
  "(\<exists>e. fst (write_single_register srv request w) = [request ! 0 OR 0x80, e])
   \<or> (\<exists>ys. fst (write_single_register srv request w) = request ! 0 # ys)"
proof (cases "length request = 5")
  case False
  then show ?thesis by (simp add: write_single_register_def exception_pdu_def)
next
  case True
  then obtain a b c d e where r: "request = [a, b, c, d, e]"
    by (auto simp: length_Suc_conv numeral_eq_Suc)
  show ?thesis
    by (simp add: write_single_register_def Let_def exception_pdu_def r
        split: prod.splits call.splits bool.splits)
qed

section \<open>Write Multiple Registers\<close>

subsection \<open>The loop\<close>

lemma write_loop_miss:
  assumes hits: "\<And>j. j < k \<Longrightarrow>
      write_chain (register_tables srv) (start + of_nat j)
        (if data_width srv = W32 then get_u32 request (6 + 4 * j)
         else ucast (get_u16 request (6 + 2 * j))) (ws j)
        = (Returned True, ws (Suc j))"
    and miss: "write_chain (register_tables srv) (start + of_nat k)
        (if data_width srv = W32 then get_u32 request (6 + 4 * k)
         else ucast (get_u16 request (6 + 2 * k))) (ws k) = (Returned False, w_miss)"
    and k: "k * width_of (data_width srv) < unat quantity"
    and i: "i \<le> k"
  shows "write_loop srv request fc start quantity i (ws i)
         = (exception_pdu fc EX_ILLEGAL_ADDRESS, w_miss)"
  using i
proof (induction "k - i" arbitrary: i)
  case 0
  then have "i = k" by simp
  then show ?case using k miss by (subst write_loop.simps) (auto simp: width_of_def)
next
  case (Suc d)
  then have lt: "i < k" by simp
  have run: "i * width_of (data_width srv) < unat quantity"
    using mult_le_mono1 [of i k "width_of (data_width srv)"] lt k by linarith
  have step: "write_loop srv request fc start quantity i (ws i) =
      write_loop srv request fc start quantity (Suc i) (ws (Suc i))"
    using run hits [OF lt] by (subst write_loop.simps) (auto simp: width_of_def)
  have "d = k - Suc i" using Suc.hyps(2) by simp
  moreover have "Suc i \<le> k" using lt by simp
  ultimately show ?case unfolding step by (rule Suc.hyps(1))
qed

text \<open>
  In a request that has passed the checks of the handler, the bytes the loop reads for
  the \<open>i\<close>-th value (2 in 16-bit mode, 4 in 32-bit mode, from \<open>6 + 2 * i * width\<close> on)
  are inside the request.
\<close>

lemma write_loop_reads_in_range:
  assumes "unat (request ! 5) = 2 * q" and "q mod width_of dw = 0"
    and "length request = 6 + unat (request ! 5)" and "i * width_of dw < q"
  shows "6 + 2 * i * width_of dw + 2 * width_of dw \<le> length request"
proof (cases dw)
  case W16
  with assms show ?thesis by (simp add: width_of_def)
next
  case W32
  with assms have "q mod 2 = 0" and "2 * i < q" by (simp_all add: width_of_def mult.commute)
  then have "2 * i + 2 \<le> q" by presburger
  with assms W32 show ?thesis by (simp add: width_of_def)
qed

lemma write_loop_response:
  "(\<exists>e. fst (write_loop srv request fc start quantity i w) = [fc OR 0x80, e])
   \<or> (\<exists>ys. fst (write_loop srv request fc start quantity i w) = fc # ys)"
proof (induction srv request fc start quantity i w rule: write_loop.induct)
  case (1 srv request fc start quantity i w)
  let ?v = "if data_width srv = W32
                 then get_u32 request (6 + 2 * i * width_of (data_width srv))
                 else ucast (get_u16 request (6 + 2 * i * width_of (data_width srv)))"
  show ?case
  proof (cases "i * width_of (data_width srv) < unat quantity")
    case False
    then show ?thesis by (subst write_loop.simps) (simp add: push_u16_def)
  next
    case run: True
    obtain r w' where rc: "write_chain (register_tables srv) (start + of_nat i) ?v w = (r, w')"
      by (cases "write_chain (register_tables srv) (start + of_nat i) ?v w")
    show ?thesis
    proof (cases r)
      case Threw
      with run rc show ?thesis by (subst write_loop.simps) (simp add: exception_pdu_def)
    next
      case (Returned x)
      show ?thesis
      proof (cases x)
        case False
        with run rc Returned show ?thesis
          by (subst write_loop.simps) (simp add: exception_pdu_def)
      next
        case True
        then have x: "x = True" by simp
        have step: "write_loop srv request fc start quantity i w
            = write_loop srv request fc start quantity (i + 1) w'"
          using run rc Returned x by (subst write_loop.simps) simp
        from "1.IH" [OF run rc [symmetric] Returned x]
        show ?thesis unfolding step by auto
      qed
    qed
  qed
qed

lemma write_multiple_registers_response:
  "(\<exists>e. fst (write_multiple_registers srv request w) = [request ! 0 OR 0x80, e])
   \<or> (\<exists>ys. fst (write_multiple_registers srv request w) = request ! 0 # ys)"
  using write_loop_response [of srv request "request ! 0" "ucast (get_u16 request 1)"
      "ucast (get_u16 request 3)" 0 w]
  by (auto simp: write_multiple_registers_shape)

subsection \<open>Requests of the wrong shape\<close>

text \<open>
  Claim C7: every Write Multiple Registers request with a byte count other than
  \<open>quantity * 2\<close>, or a quantity that is not a multiple of the width (2 in 32-bit mode,
  1 in 16-bit mode), or a size other than \<open>6 + byte count\<close>, is answered with the
  exception PDU with code 3 (illegal value), and the world is the one before the
  request: no table is called. A request too short to hold the byte count (fewer than
  6 bytes) is answered in the same way.
\<close>

theorem write_multiple_registers_bad_shape:
  assumes "request \<noteq> []" and "request ! 0 = 0x10"
    and "length request < 6 \<or> unat (request ! 5) \<noteq> 2 * unat (get_u16 request 3)
         \<or> unat (get_u16 request 3) mod width_of (data_width srv) \<noteq> 0
         \<or> length request \<noteq> 6 + unat (request ! 5)"
  shows "dispatch_pdu srv request w = ([0x90, 0x03], w)"
proof -
  have "dispatch_pdu srv request w = write_multiple_registers srv request w"
    using assms(1,2) by (rule dispatch_write_multiple)
  also have "\<dots> = ([0x90, 0x03], w)"
    using assms(2,3) by (simp add: write_multiple_registers_shape)
  finally show ?thesis .
qed

theorem write_multiple_registers_bad_shape_witness:
  "dispatch_pdu (Server_new (Some MemoryRegisterTable) W32 3600 1000)
     [0x10, 0x00, 0x00, 0x00, 0x01, 0x02, 0x12, 0x34] [0, 0] = ([0x90, 0x03], [0, 0])"
  using write_multiple_registers_bad_shape [of "[0x10, 0x00, 0x00, 0x00, 0x01, 0x02, 0x12, 0x34]"
      "Server_new (Some MemoryRegisterTable) W32 3600 1000" "[0, 0]"]
  by (simp add: Server_new_def get_u16_def width_of_def)

subsection \<open>A miss in the middle of a write\<close>

text \<open>
  Claim C3: when a Write Multiple Registers request of valid shape meets a miss at its
  \<open>k\<close>-th register, the response is the exception PDU with code 2 (illegal address),
  and the values written to the \<open>k\<close> registers before it stay written: the world
  after the request is \<open>w_miss\<close>, the one that the \<open>k\<close> accepted writes (\<open>ws k\<close>
  is the world after them) and the offer that no table accepted have left; nothing is
  undone. The value written at the \<open>j\<close>-th register is read from the request at
  \<open>6 + 2 * j\<close> in 16-bit mode and at \<open>6 + 4 * j\<close> in 32-bit mode.
\<close>

theorem write_multiple_registers_miss_no_rollback:
  assumes fc: "request ! 0 = 0x10" and len: "6 \<le> length request"
    and bc: "unat (request ! 5) = 2 * unat (get_u16 request 3)"
    and w: "unat (get_u16 request 3) mod width_of (data_width srv) = 0"
    and size: "length request = 6 + unat (request ! 5)"
    and k: "k * width_of (data_width srv) < unat (get_u16 request 3)"
    and hits: "\<forall>j<k.
      write_chain (register_tables srv) (ucast (get_u16 request 1) + of_nat j)
        (if data_width srv = W32 then get_u32 request (6 + 4 * j)
         else ucast (get_u16 request (6 + 2 * j))) (ws j)
        = (Returned True, ws (Suc j))"
    and miss: "write_chain (register_tables srv) (ucast (get_u16 request 1) + of_nat k)
        (if data_width srv = W32 then get_u32 request (6 + 4 * k)
         else ucast (get_u16 request (6 + 2 * k))) (ws k)
        = (Returned False, w_miss)"
  shows "dispatch_pdu srv request (ws 0) = ([0x90, 0x02], w_miss)"
proof -
  from len have "request \<noteq> []" by auto
  then have "dispatch_pdu srv request (ws 0) = write_multiple_registers srv request (ws 0)"
    using fc by (rule dispatch_write_multiple)
  also have "\<dots> = write_loop srv request (request ! 0) (ucast (get_u16 request 1))
             (ucast (get_u16 request 3)) 0 (ws 0)"
    using len bc w size by (simp add: write_multiple_registers_shape)
  also have "\<dots> = (exception_pdu (request ! 0) EX_ILLEGAL_ADDRESS, w_miss)"
    by (rule write_loop_miss [where k = k])
       (use hits miss k in \<open>simp_all add: unat_ucast_16_32\<close>)
  finally show ?thesis by (simp add: fc exception_pdu_def EX_ILLEGAL_ADDRESS_def)
qed

text \<open>
  Two registers written to a table that has one: the first value is in the table after
  the request has been refused.
\<close>

theorem write_multiple_registers_miss_no_rollback_witness:
  "dispatch_pdu (Server_new (Some MemoryRegisterTable) W16 3600 1000)
     [0x10, 0x00, 0x00, 0x00, 0x02, 0x04, 0x12, 0x34, 0x56, 0x78] [0]
   = ([0x90, 0x02], [0x1234])"
  using write_multiple_registers_miss_no_rollback
    [of "[0x10, 0x00, 0x00, 0x00, 0x02, 0x04, 0x12, 0x34, 0x56, 0x78]"
      "Server_new (Some MemoryRegisterTable) W16 3600 1000" 1
      "\<lambda>j. if j = 0 then [0] else [0x1234]" "[0x1234]"]
  by (simp add: Server_new_def MemoryRegisterTable_def get_u16_def width_of_def)

section \<open>The dispatcher\<close>

text \<open>
  Claim C2, as stated: a request with the unknown function code \<open>0x99\<close> is answered
  with the exception PDU \<open>0xF9 0x01\<close>. The code answers \<open>0x99 0x01\<close>: the first byte
  is the function code OR \<open>0x80\<close>, and \<open>0x99\<close> has that bit already (\<open>0xF9\<close> is
  \<open>0x79 OR 0x80\<close>). The statement below is the claim at a server without tables.
\<close>

theorem response_to_0x99_is_not_0xF9:
  "dispatch_pdu (Server_new None W32 3600 1000) [0x99] () \<noteq> ([0xF9, 0x01], ())"
  by (simp add: dispatch_pdu_def exception_pdu_def EX_ILLEGAL_FUNCTION_def
      FC_READ_HOLDING_REGISTERS_def FC_WRITE_SINGLE_REGISTER_def FC_WRITE_MULTIPLE_REGISTERS_def)

text \<open>
  Claim C2, amended: a request whose PDU carries the unknown function code \<open>0x99\<close>,
  whatever follows it, is answered with the exception PDU \<open>0x99 0x01\<close> (function code
  OR \<open>0x80\<close>, exception code 1 = illegal function), and no table is called.
\<close>

theorem unknown_function_code_0x99:
  "dispatch_pdu srv (0x99 # rest) w = ([0x99, 0x01], w)"
  by (simp add: dispatch_pdu_def exception_pdu_def EX_ILLEGAL_FUNCTION_def
      FC_READ_HOLDING_REGISTERS_def FC_WRITE_SINGLE_REGISTER_def FC_WRITE_MULTIPLE_REGISTERS_def)

lemma shape_of_response:
  assumes "(\<exists>e. resp = [fc OR 0x80, e]) \<or> (\<exists>ys. resp = fc # ys)"
    and "fc AND 0x80 = (0 :: u8)"
  shows "resp \<noteq> [] \<and> (hd resp = fc \<or> hd resp = fc OR 0x80)
         \<and> (hd resp AND 0x80 \<noteq> 0 \<longrightarrow> length resp = 2)"
  using assms by auto

lemma read_holding_registers_response:
  "(\<exists>e. fst (read_holding_registers srv request w) = [request ! 0 OR 0x80, e])
   \<or> (\<exists>ys. fst (read_holding_registers srv request w) = request ! 0 # ys)"
  using read_loop_response [of srv "request ! 0" "ucast (get_u16 request 1)"
      "ucast (get_u16 request 3)" 0 "[request ! 0, of_nat (2 * unat (get_u16 request 3))]" w]
  by (auto simp: read_holding_registers_shape simp del: of_nat_mult)

text \<open>
  Claim C10: for every request PDU, the empty one included, whatever the tables do
  (return or throw), the response of the dispatcher is not empty; its first byte is the
  function code of the request (0 for the empty request) or that code with the bit
  \<open>0x80\<close> set; and every exception response (a response whose first byte has the bit
  \<open>0x80\<close>) is exactly 2 bytes long.
\<close>

theorem dispatch_pdu_response_shape:
  "fst (dispatch_pdu srv request w) \<noteq> []
   \<and> (hd (fst (dispatch_pdu srv request w)) = (if request = [] then 0 else request ! 0)
      \<or> hd (fst (dispatch_pdu srv request w)) = (if request = [] then 0 else request ! 0) OR 0x80)
   \<and> (hd (fst (dispatch_pdu srv request w)) AND 0x80 \<noteq> 0
        \<longrightarrow> length (fst (dispatch_pdu srv request w)) = 2)"
proof (cases "request = []")
  case True
  then show ?thesis by (simp add: dispatch_pdu_def exception_pdu_def)
next
  case False
  consider "request ! 0 = 0x03" | "request ! 0 = 0x06" | "request ! 0 = 0x10"
    | "request ! 0 \<noteq> 0x03" "request ! 0 \<noteq> 0x06" "request ! 0 \<noteq> 0x10"
    by blast
  then show ?thesis
  proof cases
    case 1
    have "fst (dispatch_pdu srv request w) \<noteq> []
      \<and> (hd (fst (dispatch_pdu srv request w)) = request ! 0
         \<or> hd (fst (dispatch_pdu srv request w)) = request ! 0 OR 0x80)
      \<and> (hd (fst (dispatch_pdu srv request w)) AND 0x80 \<noteq> 0
           \<longrightarrow> length (fst (dispatch_pdu srv request w)) = 2)"
      unfolding dispatch_read [OF False 1]
      by (rule shape_of_response [OF read_holding_registers_response]) (simp add: 1)
    with False show ?thesis by simp
  next
    case 2
    have "fst (dispatch_pdu srv request w) \<noteq> []
      \<and> (hd (fst (dispatch_pdu srv request w)) = request ! 0
         \<or> hd (fst (dispatch_pdu srv request w)) = request ! 0 OR 0x80)
      \<and> (hd (fst (dispatch_pdu srv request w)) AND 0x80 \<noteq> 0
           \<longrightarrow> length (fst (dispatch_pdu srv request w)) = 2)"
      unfolding dispatch_write_single [OF False 2]
      by (rule shape_of_response [OF write_single_register_response]) (simp add: 2)
    with False show ?thesis by simp
  next
    case 3
    have "fst (dispatch_pdu srv request w) \<noteq> []
      \<and> (hd (fst (dispatch_pdu srv request w)) = request ! 0
         \<or> hd (fst (dispatch_pdu srv request w)) = request ! 0 OR 0x80)
      \<and> (hd (fst (dispatch_pdu srv request w)) AND 0x80 \<noteq> 0
           \<longrightarrow> length (fst (dispatch_pdu srv request w)) = 2)"
      unfolding dispatch_write_multiple [OF False 3]
      by (rule shape_of_response [OF write_multiple_registers_response]) (simp add: 3)
    with False show ?thesis by simp
  next
    case 4
    with False show ?thesis by (simp add: dispatch_unknown)
  qed
qed

theorem dispatch_pdu_response_shape_witness:
  "hd (fst (dispatch_pdu (Server_new (Some MemoryRegisterTable) W16 3600 1000)
     [0x2B, 0x0E, 0x01, 0x00] [0x10])) AND 0x80 \<noteq> 0
   \<and> length (fst (dispatch_pdu (Server_new (Some MemoryRegisterTable) W16 3600 1000)
     [0x2B, 0x0E, 0x01, 0x00] [0x10])) = 2"
  using dispatch_pdu_response_shape [of "Server_new (Some MemoryRegisterTable) W16 3600 1000"
      "[0x2B, 0x0E, 0x01, 0x00]" "[0x10]"]
  by (simp add: dispatch_unknown)

section \<open>One request over a socket\<close>

subsection \<open>The MBAP header\<close>

text \<open>
  Claim C9: for every 7-byte MBAP header with protocol id 0 and length at least 2, the
  fields the server decodes from it (transaction id, unit id) and the header it builds
  from them for a response, with the protocol id 0 and the length written as 1 + the
  length of the payload, are the 7 bytes again whenever the payload has the length the
  header announces.
\<close>

theorem mbap_header_roundtrip:
  assumes len: "length header = 7"
    and proto: "get_u16 header 2 = 0"
    and ge2: "2 \<le> unat (get_u16 header 4)"
    and payload: "1 + length resp_pdu = unat (get_u16 header 4)"
  shows "response_frame (ucast (get_u16 header 0)) (ucast (header ! 6)) resp_pdu
         = header @ resp_pdu"
proof -
  have tid: "push_u16 [] (ucast (ucast (get_u16 header 0) :: u32)) = [header ! 0, header ! 1]"
    using push_get_u16 [of "[]" header 0] by (simp add: ucast_16_32_16)
  have "push_u16 [] (get_u16 header 2) = [header ! 2, header ! 3]"
    using push_get_u16 [of "[]" header 2] by (simp add: numeral_3_eq_3 numeral_2_eq_2)
  then have pid: "header ! 2 = 0" "header ! 3 = 0"
    by (simp_all add: proto push_u16_zero)
  have "(of_nat (1 + length resp_pdu) :: u16) = get_u16 header 4"
    unfolding payload by simp
  then have ln: "push_u16 out (of_nat (1 + length resp_pdu)) = out @ [header ! 4, header ! 5]"
    for out
    using push_get_u16 [of out header 4] by simp
  obtain a b c d e f g where h: "header = [a, b, c, d, e, f, g]"
    using len by (auto simp: length_Suc_conv numeral_eq_Suc)
  show ?thesis
    unfolding response_frame_def
    apply (simp only: tid ucast_8_32_8 ln push_u16_zero)
    using pid by (simp add: h)
qed

theorem mbap_header_roundtrip_witness:
  "response_frame (ucast (get_u16 [0x00, 0x2A, 0x00, 0x00, 0x00, 0x06, 0x11] 0))
     (ucast ([0x00, 0x2A, 0x00, 0x00, 0x00, 0x06, 0x11 :: u8] ! 6))
     [0x06, 0x00, 0x01, 0x12, 0x34]
   = [0x00, 0x2A, 0x00, 0x00, 0x00, 0x06, 0x11] @ [0x06, 0x00, 0x01, 0x12, 0x34]"
  using mbap_header_roundtrip
    [of "[0x00, 0x2A, 0x00, 0x00, 0x00, 0x06, 0x11]" "[0x06, 0x00, 0x01, 0x12, 0x34]"]
  by (simp add: get_u16_def)

subsection \<open>Reading leaves the written bytes alone\<close>

lemma recv_outbound:
  "recv fd n = (e, fd') \<Longrightarrow> outbound fd' = outbound fd \<and> sends fd' = sends fd"
  by (auto simp: recv_def split: list.splits recv_event.splits if_splits)

lemma read_exact_from_outbound:
  "read_exact_from fd buf n = (ok, buf', fd')
   \<Longrightarrow> outbound fd' = outbound fd \<and> sends fd' = sends fd"
proof (induction fd buf n rule: read_exact_from.induct)
  case (1 fd buf n)
  show ?case
  proof (cases "length buf < n")
    case False
    with "1.prems" show ?thesis by (simp add: read_exact_from.simps)
  next
    case more: True
    obtain e fd1 where r: "recv fd (n - length buf) = (e, fd1)"
      by (cases "recv fd (n - length buf)")
    note o = recv_outbound [OF r]
    show ?thesis
    proof (cases e)
      case (RecvBytes bs)
      show ?thesis
      proof (cases "bs = []")
        case True
        with "1.prems" more r RecvBytes o show ?thesis
          by (subst (asm) read_exact_from.simps) simp
      next
        case False
        with "1.prems" more r RecvBytes
        have "read_exact_from fd1 (buf @ bs) n = (ok, buf', fd')"
          by (subst (asm) read_exact_from.simps) simp
        from "1.IH"(1) [OF more r [symmetric] RecvBytes False this] o
        show ?thesis by simp
      qed
    next
      case RecvEINTR
      with "1.prems" more r
      have "read_exact_from fd1 buf n = (ok, buf', fd')"
        by (subst (asm) read_exact_from.simps) simp
      from "1.IH"(2) [OF more r [symmetric] RecvEINTR this] o
      show ?thesis by simp
    next
      case RecvError
      with "1.prems" more r o show ?thesis
        by (subst (asm) read_exact_from.simps) simp
    qed
  qed
qed

lemma read_exact_outbound:
  "read_exact fd n = (ok, buf, fd') \<Longrightarrow> outbound fd' = outbound fd \<and> sends fd' = sends fd"
  unfolding read_exact_def by (rule read_exact_from_outbound)

subsection \<open>Headers that end the connection\<close>

text \<open>
  Claim C4: for every request whose MBAP header, once its 7 bytes are read, has a
  protocol id other than 0, or a length below 2, or a PDU length (length - 1) above 256,
  \<open>handle_single_request\<close> returns \<^verbatim>\<open>false\<close> and writes nothing to the socket: its
  written bytes are the ones before the call, no further byte is read, and no table is
  called. The peer gets no exception PDU.
\<close>

theorem handle_single_request_fatal_header:
  assumes hdr: "read_exact fd 7 = (True, header, fd1)"
    and bad: "get_u16 header 2 \<noteq> 0 \<or> unat (get_u16 header 4) < 2
              \<or> unat (get_u16 header 4) - 1 > 256"
  shows "handle_single_request srv fd w = (False, fd1, w) \<and> outbound fd1 = outbound fd"
proof -
  have p: "(ucast (get_u16 header 2) :: u32) \<noteq> 0 \<longleftrightarrow> get_u16 header 2 \<noteq> 0"
    by (simp add: word_unat_eq_iff unat_ucast_16_32)
  have l: "(ucast (get_u16 header 4) :: u32) < 2 \<longleftrightarrow> unat (get_u16 header 4) < 2"
    by (simp add: word_less_nat_alt unat_ucast_16_32)
  have l1: "(1 :: u32) < ucast (get_u16 header 4) \<longleftrightarrow> 1 < unat (get_u16 header 4)"
    by (simp add: word_less_nat_alt unat_ucast_16_32)
  have m: "unat ((ucast (get_u16 header 4) :: u32) - 1) = unat (get_u16 header 4) - 1"
    if "\<not> unat (get_u16 header 4) < 2"
    using that by (simp add: unat_sub word_le_nat_alt unat_ucast_16_32)
  have "handle_single_request srv fd w = (False, fd1, w)"
    using bad by (auto simp: handle_single_request_def hdr Let_def p l l1 m)
  moreover have "outbound fd1 = outbound fd"
    using read_exact_outbound [OF hdr] by simp
  ultimately show ?thesis by simp
qed

text \<open>
  A header with the protocol id 1, received in two pieces with an interrupted call
  between them; the byte after it stays unread.
\<close>

theorem handle_single_request_fatal_header_witness:
  "handle_single_request (Server_new (Some MemoryRegisterTable) W16 3600 1000)
     \<lparr>inbound = [RecvBytes [0x00, 0x01, 0x00, 0x01, 0x00], RecvEINTR,
                 RecvBytes [0x06, 0x11, 0x03]],
      sends = [SendAccepts 100], outbound = []\<rparr> [0, 0]
   = (False, \<lparr>inbound = [RecvBytes [0x03]], sends = [SendAccepts 100], outbound = []\<rparr>,
      [0, 0])"
  using handle_single_request_fatal_header
    [of "\<lparr>inbound = [RecvBytes [0x00, 0x01, 0x00, 0x01, 0x00], RecvEINTR,
                     RecvBytes [0x06, 0x11, 0x03]],
          sends = [SendAccepts 100], outbound = []\<rparr>"
        "[0x00, 0x01, 0x00, 0x01, 0x00, 0x06, 0x11]"
        "\<lparr>inbound = [RecvBytes [0x03]], sends = [SendAccepts 100], outbound = []\<rparr>"
        "Server_new (Some MemoryRegisterTable) W16 3600 1000" "[0, 0]"]
  by (simp add: read_exact_def read_exact_from.simps recv_def get_u16_def)

text \<open>
  A whole exchange: the frame \<open>00 01 00 00 00 06 11 | 06 00 01 12 34\<close> writes
  \<open>0x1234\<close> at address 1 and is answered with the same 12 bytes, sent in two pieces.
\<close>

lemma handle_single_request_example:
  "handle_single_request (Server_new (Some MemoryRegisterTable) W16 3600 1000)
     \<lparr>inbound = [RecvBytes [0x00, 0x01, 0x00, 0x00, 0x00, 0x06, 0x11, 0x06, 0x00, 0x01, 0x12, 0x34]],
      sends = [SendAccepts 8, SendEINTR, SendAccepts 100], outbound = []\<rparr> [0, 0]
   = (True,
      \<lparr>inbound = [], sends = [],
       outbound = [0x00, 0x01, 0x00, 0x00, 0x00, 0x06, 0x11, 0x06, 0x00, 0x01, 0x12, 0x34]\<rparr>,
      [0, 0x1234])"
  by (simp add: handle_single_request_def read_exact_def read_exact_from.simps recv_def
      get_u16_def dispatch_write_single write_single_register_def Server_new_def
      MemoryRegisterTable_def response_frame_def push_u16_def write_exact.simps send_def)

end
